theory Spec2Isabelle
  imports Complex_Main "HOL-Library.Word" "HOL-Library.Log_Nat"
begin

unbundle bit_operations_syntax

section \<open>voip\_probe.py: the E-model MOS estimator\<close>

text \<open>
  Python floats are modelled as \<^typ>\<open>real\<close>: the decimal constants of the source are the
  exact rationals they denote and the four operations are exact, so the rounding of IEEE
  doubles (an error of the last bit per operation) is not part of this model; the section
  after this one gives the estimator with that rounding. Comparisons, \<open>max\<close>, \<open>min\<close>
  and the branch structure are those of the source. Python's \<open>/\<close> raises
  \<open>ZeroDivisionError\<close> on a zero divisor; that is a branch of the model.
\<close>

datatype error = ZeroDivisionError | StructError

text \<open>\<open>CODEC_PARAMS\<close>: codec name to \<open>(Ie, Bpl)\<close>, in the source's order.\<close>

definition CODEC_PARAMS :: "(string \<times> real \<times> real) list" where
  "CODEC_PARAMS = [(''g711'', (0, 25)), (''g729'', (11, 19)), (''opus'', (5, 14))]"

text \<open>
  \<open>str.lower()\<close> on the characters that matter for the table lookup: the ASCII capitals
  are mapped to their small letters, every other character is kept.
\<close>

definition lower_char :: "char \<Rightarrow> char" where
  "lower_char c =
     (case map_of (zip ''ABCDEFGHIJKLMNOPQRSTUVWXYZ'' ''abcdefghijklmnopqrstuvwxyz'') c of
        Some l \<Rightarrow> l
      | None \<Rightarrow> c)"

definition lower :: "string \<Rightarrow> string" where
  "lower s = map lower_char s"

text \<open>\<open>CODEC_PARAMS.get(codec.lower(), CODEC_PARAMS["g711"])\<close>\<close>

definition codec_params :: "string \<Rightarrow> real \<times> real" where
  "codec_params codec =
     (case map_of CODEC_PARAMS (lower codec) of
        Some prm \<Rightarrow> prm
      | None \<Rightarrow> (0, 25))"

definition hstep :: "real \<Rightarrow> real" where
  "hstep x = (if x > 0 then 1 else 0)"

text \<open>The cubic of the branch \<open>0 < R < 100\<close>, before it is clamped.\<close>

definition mos_cubic :: "real \<Rightarrow> real" where
  "mos_cubic R = 1 + 0.035 * R + (R * (R - 60) * (100 - R)) * 0.000007"

definition mos_of_R :: "real \<Rightarrow> real" where
  "mos_of_R R =
     (if R \<le> 0 then 1
      else if R \<ge> 100 then 4.5
      else max 1 (min 4.5 (mos_cubic R)))"

definition delay_impairment :: "real \<Rightarrow> real" where
  "delay_impairment d = 0.024 * d + 0.11 * (d - 177.3) * hstep (d - 177.3)"

text \<open>\<open>emodel_mos\<close> returns the tuple \<open>(mos, R, Id, Ie_eff)\<close>; the source's \<open>Id\<close> is written
  \<open>Id'\<close>, since \<open>Id\<close> is the identity relation of HOL.\<close>

definition emodel_mos :: "real \<Rightarrow> real \<Rightarrow> string \<Rightarrow> real \<Rightarrow> error + (real \<times> real \<times> real \<times> real)" where
  "emodel_mos delay_ms loss_percent codec burstR =
     (let (Ie, Bpl) = codec_params codec;
          d = max 0 delay_ms;
          Ppl = max 0 loss_percent;
          Id' = delay_impairment d
      in if Ppl > 0 \<and> Ppl / Bpl + burstR = 0 then Inl ZeroDivisionError
         else
           let Ie_eff = (if Ppl > 0 then Ie + (95 - Ie) * Ppl / (Ppl / Bpl + burstR) else Ie);
               R = 94.2 - Id' - Ie_eff
           in Inr (mos_of_R R, R, Id', Ie_eff))"

definition rfc3550_jitter_update :: "real \<Rightarrow> real \<Rightarrow> real" where
  "rfc3550_jitter_update J_prev diff_ms = J_prev + (\<bar>diff_ms\<bar> - J_prev) / 16"

section \<open>The estimator in double precision\<close>

text \<open>
  The same function with the arithmetic of the interpreter: every constant and every
  result of \<open>+\<close>, \<open>-\<close>, \<open>*\<close>, \<open>/\<close> is rounded to the nearest IEEE 754 double, a tie
  going to the even significand. A double is modelled by the real it denotes; the
  exponent range is not bounded (no overflow to infinity, no subnormal numbers), which is
  exact for the magnitudes that occur below.
\<close>

definition round_half_even :: "real \<Rightarrow> int" where
  "round_half_even x =
     (let f = \<lfloor>x\<rfloor>; r = x - of_int f
      in if r < 1 / 2 then f else if r > 1 / 2 then f + 1 else if even f then f else f + 1)"

text \<open>\<open>ilog2 x\<close> is the integer \<open>e\<close> with \<open>2^e \<le> x < 2^(e+1)\<close>, for \<open>x > 0\<close>.\<close>

definition ilog2 :: "real \<Rightarrow> int" where
  "ilog2 x = (if 1 \<le> x then bitlen \<lfloor>x\<rfloor> - 1 else - bitlen (\<lceil>1 / x\<rceil> - 1))"

text \<open>The nearest double: a significand of 53 bits.\<close>

definition f64 :: "real \<Rightarrow> real" where
  "f64 x =
     (if x = 0 then 0
      else let e = ilog2 \<bar>x\<bar> - 52
           in sgn x * of_int (round_half_even (\<bar>x\<bar> / power_int 2 e)) * power_int 2 e)"

definition fadd :: "real \<Rightarrow> real \<Rightarrow> real" where
  "fadd a b = f64 (a + b)"

definition fsub :: "real \<Rightarrow> real \<Rightarrow> real" where
  "fsub a b = f64 (a - b)"

definition fmul :: "real \<Rightarrow> real \<Rightarrow> real" where
  "fmul a b = f64 (a * b)"

definition fdiv :: "real \<Rightarrow> real \<Rightarrow> real" where
  "fdiv a b = f64 (a / b)"

text \<open>
  \<open>1 + 0.035*R + (R*(R-60)*(100-R))*7e-6\<close> is evaluated from the left:
  \<open>(1 + 0.035*R) + (((R*(R-60))*(100-R))*7e-6)\<close>.
\<close>

definition mos_of_R_f64 :: "real \<Rightarrow> real" where
  "mos_of_R_f64 R =
     (if R \<le> 0 then 1
      else if R \<ge> 100 then 4.5
      else max 1 (min 4.5
             (fadd (fadd 1 (fmul (f64 0.035) R))
                   (fmul (fmul (fmul R (fsub R 60)) (fsub 100 R)) (f64 0.000007)))))"

definition emodel_mos_f64 :: "real \<Rightarrow> real \<Rightarrow> string \<Rightarrow> real \<Rightarrow> error + (real \<times> real \<times> real \<times> real)" where
  "emodel_mos_f64 delay_ms loss_percent codec burstR =
     (let (Ie, Bpl) = codec_params codec;
          d = max 0 (f64 delay_ms);
          Ppl = max 0 (f64 loss_percent);
          x = fsub d (f64 177.3);
          Id' = fadd (fmul (f64 0.024) d) (fmul (fmul (f64 0.11) x) (hstep x))
      in if Ppl > 0 \<and> fadd (fdiv Ppl Bpl) burstR = 0 then Inl ZeroDivisionError
         else
           let Ie_eff = (if Ppl > 0
                         then fadd Ie (fdiv (fmul (fsub 95 Ie) Ppl) (fadd (fdiv Ppl Bpl) burstR))
                         else Ie);
               R = fsub (fsub (f64 94.2) Id') Ie_eff
           in Inr (mos_of_R_f64 R, R, Id', Ie_eff))"

section \<open>The wire format\<close>

text \<open>
  \<open>PKT_STRUCT = struct.Struct("!I Q I")\<close>: sequence number, send time in nanoseconds and
  magic, big-endian without padding, 16 bytes. \<open>pack\<close> raises \<open>struct.error\<close> on a value
  outside the range of its field; \<open>unpack\<close> is only called on exactly 16 bytes.
\<close>

type_synonym byte = "8 word"

definition MAGIC :: int where
  "MAGIC = 0xABCD1357"

definition PKT_SIZE :: nat where
  "PKT_SIZE = 16"

definition be_bytes :: "nat \<Rightarrow> int \<Rightarrow> byte list" where
  "be_bytes n v = map (\<lambda>i. word_of_int (v div 256 ^ (n - 1 - i))) [0..<n]"

definition be_int :: "byte list \<Rightarrow> int" where
  "be_int bs = foldl (\<lambda>a b. a * 256 + uint b) 0 bs"

definition pack :: "int \<Rightarrow> int \<Rightarrow> int \<Rightarrow> error + byte list" where
  "pack sq ts magic =
     (if 0 \<le> sq \<and> sq < 2 ^ 32 \<and> 0 \<le> ts \<and> ts < 2 ^ 64 \<and> 0 \<le> magic \<and> magic < 2 ^ 32
      then Inr (be_bytes 4 sq @ be_bytes 8 ts @ be_bytes 4 magic)
      else Inl StructError)"

definition unpack :: "byte list \<Rightarrow> int \<times> int \<times> int" where
  "unpack bs = (be_int (take 4 bs), be_int (take 8 (drop 4 bs)), be_int (take 4 (drop 12 bs)))"

section \<open>The client's state\<close>

text \<open>The arguments of \<open>run_client\<close> that the measurement loop reads.\<close>

record config =
  pps :: int
  duration :: "int option"
  csv :: bool
  codec :: string
  burstR :: real
  warmup :: real
  report_every :: real

text \<open>The local variables of \<open>run_client\<close> that the loop reads and writes.\<close>

record client =
  sent_times :: "int \<rightharpoonup> int"
  received :: "int set"
  rtt_samples :: "real list"
  oneway_samples :: "real list"
  window :: "int list"
  last_transit_ms :: "real option"
  J_ms :: real
  total_sent :: int
  total_recv :: int
  seq :: int
  start :: real
  next_send :: real
  next_report :: real

text \<open>\<open>deque(maxlen=max(pps*10, 100))\<close> and its \<open>append\<close>, which drops the oldest entry of a full deque.\<close>

definition maxlen :: "config \<Rightarrow> nat" where
  "maxlen cfg = nat (max (pps cfg * 10) 100)"

definition deque_append :: "nat \<Rightarrow> 'a list \<Rightarrow> 'a \<Rightarrow> 'a list" where
  "deque_append n dq x =
     (if n = 0 then dq else if length dq \<ge> n then tl dq @ [x] else dq @ [x])"

definition interval_s :: "config \<Rightarrow> real" where
  "interval_s cfg = 1 / real_of_int (pps cfg)"

text \<open>
  The state before the first iteration. \<open>1.0 / float(pps)\<close> raises on \<open>pps = 0\<close>. The three
  readings of the clock (\<open>start\<close>, \<open>next_send\<close>, \<open>next_report\<close>) are inputs.
\<close>

definition init_client :: "config \<Rightarrow> real \<Rightarrow> real \<Rightarrow> real \<Rightarrow> error + client" where
  "init_client cfg t0 t1 t2 =
     (if pps cfg = 0 then Inl ZeroDivisionError
      else Inr \<lparr> sent_times = Map.empty, received = {}, rtt_samples = [], oneway_samples = [],
                 window = [], last_transit_ms = None, J_ms = 0, total_sent = 0, total_recv = 0,
                 seq = 0, start = t0, next_send = t1, next_report = t2 + report_every cfg \<rparr>)"

section \<open>What the loop writes\<close>

datatype cell = Str string | IntCell int | Num real

record stats =
  st_sent :: int
  st_recv :: int
  st_loss_total :: real
  st_loss_win :: real
  st_avg_rtt :: real
  st_avg_oneway :: real
  st_jitter :: real
  st_mos :: real

datatype event = SendError | CsvRow "cell list" | Stats stats

section \<open>Sending (lines 127 to 138)\<close>

text \<open>
  \<open>now\<close> is the loop's reading of the clock, \<open>send_ns\<close> the reading of \<open>now_ns()\<close> and
  \<open>send_ok\<close> says whether \<open>sock.sendto\<close> returned rather than raised. \<open>pack\<close> stands outside
  the \<open>try\<close>, so its error leaves the loop.
\<close>

definition maybe_send :: "config \<Rightarrow> client \<Rightarrow> real \<Rightarrow> int \<Rightarrow> bool \<Rightarrow> error + (client \<times> event list)" where
  "maybe_send cfg s now send_ns send_ok =
     (if now \<ge> next_send s then
        (case pack (seq s) send_ns MAGIC of
           Inl e \<Rightarrow> Inl e
         | Inr packet \<Rightarrow>
             let s1 = (if send_ok
                       then s\<lparr> sent_times := (sent_times s)(seq s \<mapsto> send_ns),
                              window := deque_append (maxlen cfg) (window s) (seq s),
                              total_sent := total_sent s + 1 \<rparr>
                       else s)
             in Inr (s1\<lparr> seq := (seq s + 1) AND 0xffffffff,
                         next_send := next_send s + interval_s cfg \<rparr>,
                     if send_ok then [] else [SendError]))
      else Inr (s, []))"

section \<open>Receiving (lines 140 to 185)\<close>

text \<open>
  \<open>recv_win = sum(1 for w in win if w in received)\<close> and
  \<open>loss_pct = 100*(len(win)-recv_win)/len(win) if win else 0.0\<close>:
  integer arithmetic, then one true division.
\<close>

definition window_loss :: "int list \<Rightarrow> int set \<Rightarrow> real" where
  "window_loss win rcvd =
     (let recv_win = length (filter (\<lambda>w. w \<in> rcvd) win)
      in if win \<noteq> []
         then real_of_int (100 * (int (length win) - int recv_win)) / real (length win)
         else 0)"

text \<open>The slice \<open>xs[-n:]\<close> for any integer \<open>n\<close>: the last \<open>n\<close> entries when \<open>n > 0\<close>,
  all of \<open>xs\<close> when \<open>n = 0\<close>, and \<open>xs[k:]\<close> when \<open>n = -k < 0\<close>.\<close>

definition last_slice :: "int \<Rightarrow> 'a list \<Rightarrow> 'a list" where
  "last_slice n xs =
     (if n > 0 then drop (length xs - nat n) xs
      else if n = 0 then xs
      else drop (nat (- n)) xs)"

text \<open>\<open>sum(oneway_samples[-pps:]) / max(1, min(len(oneway_samples), pps))\<close>\<close>

definition avg_recent :: "int \<Rightarrow> real list \<Rightarrow> real" where
  "avg_recent n xs = sum_list (last_slice n xs) / real_of_int (max 1 (min (int (length xs)) n))"

text \<open>The values computed for one accepted datagram; \<open>None\<close> is Python's \<open>None\<close>.\<close>

record sample =
  smp_rtt_ms :: real
  smp_oneway_ms :: real
  smp_jitter_ms :: real
  smp_loss_pct :: real
  smp_mos :: "real option"
  smp_R :: "real option"
  smp_Id :: "real option"
  smp_Ie_eff :: "real option"

text \<open>
  Lines 151 to 171, for a datagram whose sequence number has just been added to
  \<open>received\<close> and is a key of \<open>sent_times\<close> with value \<open>sent_ns\<close>. \<open>s_ns\<close> is the time stamp
  carried by the datagram, \<open>recv_ns\<close> the reading of \<open>now_ns()\<close> at arrival and \<open>t\<close> the
  reading of \<open>time.time()\<close> on line 166. An error of \<open>emodel_mos\<close> is not caught by the loop.
\<close>

definition accept_sample :: "config \<Rightarrow> client \<Rightarrow> int \<Rightarrow> int \<Rightarrow> int \<Rightarrow> real \<Rightarrow> error + (client \<times> sample)" where
  "accept_sample cfg s sent_ns s_ns recv_ns t =
     (let rtt_ms = real_of_int (recv_ns - sent_ns) / 1000000;
          oneway_ms = rtt_ms / 2;
          transit_ms = real_of_int (recv_ns - s_ns) / 1000000;
          s1 = s\<lparr> rtt_samples := rtt_samples s @ [rtt_ms],
                  oneway_samples := oneway_samples s @ [oneway_ms],
                  total_recv := total_recv s + 1,
                  J_ms := (case last_transit_ms s of
                             None \<Rightarrow> J_ms s
                           | Some l \<Rightarrow> rfc3550_jitter_update (J_ms s) (transit_ms - l)),
                  last_transit_ms := Some transit_ms \<rparr>;
          loss_pct = window_loss (window s1) (received s1);
          elapsed = t - start s1;
          smp = \<lparr> smp_rtt_ms = rtt_ms, smp_oneway_ms = oneway_ms, smp_jitter_ms = J_ms s1,
                  smp_loss_pct = loss_pct, smp_mos = None, smp_R = None, smp_Id = None,
                  smp_Ie_eff = None \<rparr>
      in if elapsed > warmup cfg \<and> length (oneway_samples s1) > 2 then
           (case emodel_mos (avg_recent (pps cfg) (oneway_samples s1)) loss_pct (codec cfg) (burstR cfg) of
              Inl e \<Rightarrow> Inl e
            | Inr (mos, R, Id', Ie_eff) \<Rightarrow>
                Inr (s1, smp\<lparr> smp_mos := Some mos, smp_R := Some R, smp_Id := Some Id',
                               smp_Ie_eff := Some Ie_eff \<rparr>))
         else Inr (s1, smp))"

text \<open>
  \<open>round(x, nd)\<close>: to the nearest multiple of \<open>10 ^ -nd\<close>, a tie going to the even one.
\<close>

definition py_round :: "real \<Rightarrow> nat \<Rightarrow> real" where
  "py_round x nd = of_int (round_half_even (x * 10 ^ nd)) / 10 ^ nd"

text \<open>\<open>round(v, nd) if v else ""\<close>: the test is Python's truth value of \<open>v\<close>, which is
  false for \<open>None\<close> and for the number zero.\<close>

definition opt_cell :: "real option \<Rightarrow> nat \<Rightarrow> cell" where
  "opt_cell v nd =
     (case v of
        None \<Rightarrow> Str []
      | Some x \<Rightarrow> if x \<noteq> 0 then Num (py_round x nd) else Str [])"

text \<open>The row of lines 174 to 182; \<open>ts\<close> is the string \<open>iso_now()\<close> returns.\<close>

definition csv_row :: "string \<Rightarrow> int \<Rightarrow> sample \<Rightarrow> cell list" where
  "csv_row ts r_seq smp =
     [Str ts, IntCell r_seq,
      Num (py_round (smp_rtt_ms smp) 3), Num (py_round (smp_oneway_ms smp) 3),
      Num (py_round (smp_jitter_ms smp) 3), Num (py_round (smp_loss_pct smp) 3),
      opt_cell (smp_mos smp) 3, opt_cell (smp_R smp) 1,
      opt_cell (smp_Id smp) 3, opt_cell (smp_Ie_eff smp) 3]"

text \<open>
  What \<open>sock.recvfrom\<close> gives: the time-out, or a datagram together with the clock
  readings and the time stamp string that the code takes while it handles the datagram.
  (The set-up of the socket and of the CSV file, and socket errors other than the
  time-out, are outside the model.)
\<close>

datatype recv_result = Timeout | Datagram "byte list" int real string

text \<open>
  The result's first component says whether the iteration ended with \<open>continue\<close>, which
  skips the periodic summary.
\<close>

definition handle_recv :: "config \<Rightarrow> client \<Rightarrow> recv_result \<Rightarrow> error + (bool \<times> client \<times> event list)" where
  "handle_recv cfg s r =
     (case r of
        Timeout \<Rightarrow> Inr (False, s, [])
      | Datagram data recv_ns t ts \<Rightarrow>
          if length data \<ge> PKT_SIZE then
            (let (r_seq, s_ns, magic) = unpack (take PKT_SIZE data)
             in if magic \<noteq> MAGIC then Inr (True, s, [])
                else if r_seq \<in> received s then Inr (True, s, [])
                else
                  let s1 = s\<lparr> received := insert r_seq (received s) \<rparr>
                  in (case sent_times s1 r_seq of
                        None \<Rightarrow> Inr (False, s1, [])
                      | Some sent_ns \<Rightarrow>
                          (case accept_sample cfg s1 sent_ns s_ns recv_ns t of
                             Inl e \<Rightarrow> Inl e
                           | Inr (s2, smp) \<Rightarrow>
                               Inr (False, s2,
                                    if csv cfg then [CsvRow (csv_row ts r_seq smp)] else []))))
          else Inr (False, s, []))"

section \<open>The periodic summary (lines 187 to 203)\<close>

definition mean :: "real list \<Rightarrow> real" where
  "mean xs = (if xs \<noteq> [] then sum_list xs / real (length xs) else 0)"

text \<open>\<open>loss_total = 100*(total_sent-total_recv)/total_sent if total_sent else 0.0\<close>\<close>

definition cumulative_loss :: "client \<Rightarrow> real" where
  "cumulative_loss s =
     (if total_sent s \<noteq> 0
      then real_of_int (100 * (total_sent s - total_recv s)) / real_of_int (total_sent s)
      else 0)"

definition report :: "config \<Rightarrow> client \<Rightarrow> real \<Rightarrow> error + (client \<times> event list)" where
  "report cfg s now =
     (if now \<ge> next_report s then
        (let avg_rtt = mean (rtt_samples s);
             avg_oneway = mean (oneway_samples s);
             loss_total = cumulative_loss s;
             loss_win = window_loss (window s) (received s)
         in case emodel_mos avg_oneway loss_win (codec cfg) (burstR cfg) of
              Inl e \<Rightarrow> Inl e
            | Inr (mos, R, Id', Ie_eff) \<Rightarrow>
                Inr (s\<lparr> next_report := next_report s + report_every cfg \<rparr>,
                     [Stats \<lparr> st_sent = total_sent s, st_recv = total_recv s,
                              st_loss_total = loss_total, st_loss_win = loss_win,
                              st_avg_rtt = avg_rtt, st_avg_oneway = avg_oneway,
                              st_jitter = J_ms s, st_mos = mos \<rparr>]))
      else Inr (s, []))"

section \<open>One iteration of the loop, and the states it reaches\<close>

record input =
  now :: real
  send_ns :: int
  send_ok :: bool
  recv :: recv_result

datatype iter_result = Break | Raised error | Next client "event list"

text \<open>\<open>if duration and (now - start) >= duration: break\<close>\<close>

definition expired :: "config \<Rightarrow> client \<Rightarrow> real \<Rightarrow> bool" where
  "expired cfg s t =
     (case duration cfg of
        None \<Rightarrow> False
      | Some d \<Rightarrow> d \<noteq> 0 \<and> t - start s \<ge> real_of_int d)"

definition loop_iter :: "config \<Rightarrow> client \<Rightarrow> input \<Rightarrow> iter_result" where
  "loop_iter cfg s inp =
     (if expired cfg s (now inp) then Break
      else
        case maybe_send cfg s (now inp) (send_ns inp) (send_ok inp) of
          Inl e \<Rightarrow> Raised e
        | Inr (s1, ev1) \<Rightarrow>
            (case handle_recv cfg s1 (recv inp) of
               Inl e \<Rightarrow> Raised e
             | Inr (cont, s2, ev2) \<Rightarrow>
                 if cont then Next s2 (ev1 @ ev2)
                 else
                   (case report cfg s2 (now inp) of
                      Inl e \<Rightarrow> Raised e
                    | Inr (s3, ev3) \<Rightarrow> Next s3 (ev1 @ ev2 @ ev3))))"

inductive reachable :: "config \<Rightarrow> client \<Rightarrow> bool" for cfg :: config where
  init: "init_client cfg t0 t1 t2 = Inr s \<Longrightarrow> reachable cfg s"
| step: "reachable cfg s \<Longrightarrow> loop_iter cfg s inp = Next s' evs \<Longrightarrow> reachable cfg s'"

section \<open>An invariant of the loop\<close>

text \<open>
  What every iteration keeps: the pending map is finite, the received counter counts
  distinct sequence numbers that are both received and pending, the sent counter is at
  least the number of pending keys, and the sequence counter is a 32-bit value.
\<close>

definition client_inv :: "client \<Rightarrow> bool" where
  "client_inv s =
     (finite (dom (sent_times s)) \<and> 0 \<le> total_recv s \<and>
      total_recv s \<le> int (card (received s \<inter> dom (sent_times s))) \<and>
      int (card (dom (sent_times s))) \<le> total_sent s \<and>
      0 \<le> seq s \<and> seq s < 2 ^ 32)"

section \<open>A short run against an echoing server\<close>

text \<open>
  The command line \<open>client --host ... --pps 50 --codec g711 --warmup 0 --csv out.csv\<close>,
  the clock starting at 0, and a server that returns every probe 2 ms after it was sent.
  Three iterations: each sends one probe and receives its echo.
\<close>

definition demo_cfg :: config where
  "demo_cfg = \<lparr> pps = 50, duration = None, csv = True, codec = ''g711'', burstR = 1,
                 warmup = 0, report_every = 5 \<rparr>"

text \<open>The datagram that comes back for the probe \<open>(sq, ns)\<close>: the bytes that were packed.\<close>

definition echo :: "int \<Rightarrow> int \<Rightarrow> byte list" where
  "echo sq ns = (case pack sq ns MAGIC of Inr p \<Rightarrow> p | Inl e \<Rightarrow> [])"

definition demo_init :: client where
  "demo_init = \<lparr> sent_times = Map.empty, received = {}, rtt_samples = [], oneway_samples = [],
                  window = [], last_transit_ms = None, J_ms = 0, total_sent = 0, total_recv = 0,
                  seq = 0, start = 0, next_send = 0, next_report = 5 \<rparr>"

definition demo_input1 :: input where
  "demo_input1 = \<lparr> now = 0, send_ns = 1000000, send_ok = True,
                    recv = Datagram (echo 0 1000000) 3000000 0.003 ''ts1'' \<rparr>"

definition demo_state1 :: client where
  "demo_state1 = \<lparr> sent_times = [0 \<mapsto> 1000000], received = {0}, rtt_samples = [2],
       oneway_samples = [1], window = [0], last_transit_ms = Some 2, J_ms = 0,
       total_sent = 1, total_recv = 1, seq = 1, start = 0, next_send = 1 / 50,
       next_report = 5 \<rparr>"

definition demo_input2 :: input where
  "demo_input2 = \<lparr> now = 0.02, send_ns = 21000000, send_ok = True,
                    recv = Datagram (echo 1 21000000) 23000000 0.023 ''ts2'' \<rparr>"

definition demo_state2 :: client where
  "demo_state2 = \<lparr> sent_times = [0 \<mapsto> 1000000, 1 \<mapsto> 21000000], received = {1, 0},
       rtt_samples = [2, 2], oneway_samples = [1, 1], window = [0, 1],
       last_transit_ms = Some 2, J_ms = 0, total_sent = 2, total_recv = 2, seq = 2,
       start = 0, next_send = 2 / 50, next_report = 5 \<rparr>"

definition demo_input3 :: input where
  "demo_input3 = \<lparr> now = 0.04, send_ns = 41000000, send_ok = True,
                    recv = Datagram (echo 2 41000000) 43000000 0.043 ''ts3'' \<rparr>"

definition demo_state3 :: client where
  "demo_state3 = \<lparr> sent_times = [0 \<mapsto> 1000000, 1 \<mapsto> 21000000, 2 \<mapsto> 41000000],
       received = {2, 1, 0}, rtt_samples = [2, 2, 2], oneway_samples = [1, 1, 1],
       window = [0, 1, 2], last_transit_ms = Some 2, J_ms = 0, total_sent = 3,
       total_recv = 3, seq = 3, start = 0, next_send = 3 / 50, next_report = 5 \<rparr>"

section \<open>Properties of the MOS estimator\<close>

lemma codec_params_cases:
  "codec_params c = (0, 25) \<or> codec_params c = (11, 19) \<or> codec_params c = (5, 14)"
  by (simp add: codec_params_def CODEC_PARAMS_def split: option.splits)

lemma codec_params_g711: "codec_params ''g711'' = (0, 25)"
  by (simp add: codec_params_def CODEC_PARAMS_def lower_def lower_char_def)

lemma codec_params_g729: "codec_params ''g729'' = (11, 19)"
  by (simp add: codec_params_def CODEC_PARAMS_def lower_def lower_char_def)

lemma codec_params_opus: "codec_params ''opus'' = (5, 14)"
  by (simp add: codec_params_def CODEC_PARAMS_def lower_def lower_char_def)

lemma mos_of_R_bounds: "1 \<le> mos_of_R R \<and> mos_of_R R \<le> 4.5"
  by (simp add: mos_of_R_def max_def min_def)

text \<open>With burst factor 1 the divisor \<open>Ppl/Bpl + 1\<close> is positive, so no division fails.\<close>

lemma emodel_mos_burst1:
  "emodel_mos d p c 1 =
     (let (Ie, Bpl) = codec_params c; Ppl = max 0 p;
          Ie_eff = (if Ppl > 0 then Ie + (95 - Ie) * Ppl / (Ppl / Bpl + 1) else Ie);
          R = 94.2 - delay_impairment (max 0 d) - Ie_eff
      in Inr (mos_of_R R, R, delay_impairment (max 0 d), Ie_eff))"
proof -
  obtain Ie Bpl where cp: "codec_params c = (Ie, Bpl)"
    by (cases "codec_params c")
  have "0 < Bpl"
    using codec_params_cases [of c] cp by auto
  then have "max 0 p / Bpl + 1 \<noteq> 0" if "0 < max 0 p"
    using that by (smt (verit) divide_pos_pos)
  then show ?thesis
    by (simp add: emodel_mos_def cp Let_def)
qed

text \<open>The rounding to doubles, on examples, and what the proofs below need of it.\<close>

lemma f64_examples:
  "f64 0.1 = 3602879701896397 / 36028797018963968"
  "f64 94.2 = 6628735701535949 / 70368744177664"
  "f64 23.5 = 23.5"
  "f64 (- 250.5) = - 250.5"
  "f64 (1 / 3) = 6004799503160661 / 18014398509481984"
  by code_simp+

lemma bitlen_pos: "0 < m \<Longrightarrow> 1 \<le> bitlen m"
  using bitlen_bounds [of m] by (cases "bitlen m \<le> 0") auto

lemma pow2_ilog2_le:
  assumes "0 < x"
  shows "power_int 2 (ilog2 x) \<le> x"
proof (cases "1 \<le> x")
  case True
  then have m: "0 < \<lfloor>x\<rfloor>" by simp
  have b: "1 \<le> bitlen \<lfloor>x\<rfloor>" using m by (rule bitlen_pos)
  have "(2::int) ^ nat (bitlen \<lfloor>x\<rfloor> - 1) \<le> \<lfloor>x\<rfloor>"
    using bitlen_bounds [OF m] by simp
  then have "real_of_int (2 ^ nat (bitlen \<lfloor>x\<rfloor> - 1)) \<le> real_of_int \<lfloor>x\<rfloor>"
    by (simp only: of_int_le_iff)
  then have "(2::real) ^ nat (bitlen \<lfloor>x\<rfloor> - 1) \<le> x"
    by (simp add: le_floor_iff)
  then show ?thesis
    using True b by (simp add: ilog2_def power_int_def)
next
  case False
  define m where "m = \<lceil>1 / x\<rceil> - 1"
  have "1 < 1 / x" using False assms by simp
  then have m: "0 < m" unfolding m_def by (simp add: less_ceiling_iff)
  have b: "1 \<le> bitlen m" using m by (rule bitlen_pos)
  have "m < 2 ^ nat (bitlen m)"
    using bitlen_bounds [OF m] by simp
  then have "\<lceil>1 / x\<rceil> \<le> 2 ^ nat (bitlen m)"
    unfolding m_def by simp
  then have "1 / x \<le> real_of_int (2 ^ nat (bitlen m))"
    by (simp only: ceiling_le_iff)
  then have "1 / x \<le> 2 ^ nat (bitlen m)" by simp
  then have "1 / 2 ^ nat (bitlen m) \<le> x"
    using assms by (simp add: field_simps)
  then show ?thesis
    using False b by (simp add: ilog2_def power_int_def m_def field_simps)
qed

lemma round_half_even_ge: "1 \<le> x \<Longrightarrow> 1 \<le> round_half_even x"
proof -
  assume "1 \<le> x"
  then have "1 \<le> \<lfloor>x\<rfloor>" by simp
  then show ?thesis by (auto simp: round_half_even_def Let_def)
qed

lemma f64_pos:
  assumes "0 < x"
  shows "0 < f64 x"
proof -
  define e where "e = ilog2 x - 52"
  have p: "0 < power_int (2::real) e" by simp
  have "power_int (2::real) e \<le> power_int 2 (ilog2 x)"
    unfolding e_def by (rule power_int_increasing) simp_all
  then have "power_int 2 e \<le> x"
    using pow2_ilog2_le [OF assms] by linarith
  then have "1 \<le> x / power_int 2 e"
    using p by (simp add: le_divide_eq)
  then have "1 \<le> round_half_even (x / power_int 2 e)"
    by (rule round_half_even_ge)
  then have "0 < real_of_int (round_half_even (x / power_int 2 e)) * power_int 2 e"
    using p by (intro mult_pos_pos) simp_all
  then show ?thesis
    using assms by (simp add: f64_def e_def Let_def)
qed

lemma f64_nonneg: "0 \<le> x \<Longrightarrow> 0 \<le> f64 x"
  using f64_pos [of x] by (cases "x = 0") (simp_all add: f64_def)

lemma mos_of_R_f64_bounds: "1 \<le> mos_of_R_f64 R \<and> mos_of_R_f64 R \<le> 4.5"
  by (simp add: mos_of_R_f64_def max_def min_def)

lemma emodel_mos_f64_burst1:
  "\<exists>R I E. emodel_mos_f64 d p c 1 = Inr (mos_of_R_f64 R, R, I, E)"
proof -
  obtain Ie Bpl where cp: "codec_params c = (Ie, Bpl)"
    by (cases "codec_params c")
  have Bpl: "0 < Bpl"
    using codec_params_cases [of c] cp by auto
  have "fadd (fdiv (max 0 (f64 p)) Bpl) 1 \<noteq> 0" if "0 < max 0 (f64 p)"
  proof -
    have "0 \<le> fdiv (max 0 (f64 p)) Bpl"
      unfolding fdiv_def using that Bpl by (intro f64_nonneg) simp
    then have "0 < fadd (fdiv (max 0 (f64 p)) Bpl) 1"
      unfolding fadd_def by (intro f64_pos) simp
    then show ?thesis by simp
  qed
  then show ?thesis
    by (auto simp: emodel_mos_f64_def cp Let_def)
qed

text \<open>
  Claim C1. For every non-negative delay \<open>d\<close>, every non-negative loss percent \<open>p\<close>, every
  codec name and burst factor 1.0, \<open>emodel_mos\<close> returns, and the MOS it returns lies in
  the closed interval from 1.0 to 4.5; in exact arithmetic and in double precision.
\<close>

theorem emodel_mos_range:
  assumes "0 \<le> d" and "0 \<le> p"
  shows "(\<exists>mos R Id' Ie_eff.
            emodel_mos d p c 1 = Inr (mos, R, Id', Ie_eff) \<and> 1 \<le> mos \<and> mos \<le> 4.5) \<and>
         (\<exists>mos R Id' Ie_eff.
            emodel_mos_f64 d p c 1 = Inr (mos, R, Id', Ie_eff) \<and> 1 \<le> mos \<and> mos \<le> 4.5)"
proof -
  have "\<exists>mos R Id' Ie_eff.
          emodel_mos d p c 1 = Inr (mos, R, Id', Ie_eff) \<and> 1 \<le> mos \<and> mos \<le> 4.5"
    using mos_of_R_bounds by (simp add: emodel_mos_burst1 Let_def split: prod.splits)
  moreover have "\<exists>mos R Id' Ie_eff.
          emodel_mos_f64 d p c 1 = Inr (mos, R, Id', Ie_eff) \<and> 1 \<le> mos \<and> mos \<le> 4.5"
    using emodel_mos_f64_burst1 [of d p c] mos_of_R_f64_bounds by blast
  ultimately show ?thesis
    by blast
qed

theorem emodel_mos_range_witness:
  "(0::real) \<le> 150 \<and> (0::real) \<le> 2 \<and>
   (\<exists>mos R Id' Ie_eff.
      emodel_mos 150 2 ''opus'' 1 = Inr (mos, R, Id', Ie_eff) \<and> 1 \<le> mos \<and> mos \<le> 4.5) \<and>
   (\<exists>mos R Id' Ie_eff.
      emodel_mos_f64 150 2 ''opus'' 1 = Inr (mos, R, Id', Ie_eff) \<and> 1 \<le> mos \<and> mos \<le> 4.5)"
  using emodel_mos_range [of 150 2 "''opus''"] by simp

text \<open>The delay impairment grows with the delay, and the MOS grows with \<open>R\<close>.\<close>

lemma delay_impairment_mono:
  assumes "d1 \<le> d2"
  shows "delay_impairment d1 \<le> delay_impairment d2"
proof -
  have "0.11 * (d1 - 177.3) * hstep (d1 - 177.3) \<le> 0.11 * (d2 - 177.3) * hstep (d2 - 177.3)"
    using assms by (auto simp: hstep_def)
  moreover have "0.024 * d1 \<le> 0.024 * d2"
    using assms by simp
  ultimately show ?thesis
    unfolding delay_impairment_def by linarith
qed

lemma mos_cubic_diff:
  "mos_cubic R2 - mos_cubic R1 =
     0.000007 * (R2 - R1) * (160 * (R1 + R2) - (R1 * R1 + R1 * R2 + R2 * R2) - 1000)"
  unfolding mos_cubic_def by (simp add: field_simps)

lemma mos_cubic_above_one:
  "mos_cubic R - 1 = 0.000007 * R * (160 * R - R * R - 1000)"
  by (simp add: mos_cubic_def algebra_simps)

lemma bracket_nonneg:
  fixes R1 R2 :: real
  assumes a: "0 < 160 * R1 - R1 * R1 - 1000" and pos: "0 < R1"
    and le: "R1 \<le> R2" and lt: "R2 < 100"
  shows "0 \<le> 160 * (R1 + R2) - (R1 * R1 + R1 * R2 + R2 * R2) - 1000"
proof (cases "R1 + R2 \<le> 160")
  case True
  have "0 \<le> R2 * (160 - R1 - R2)"
    using True pos le by (intro mult_nonneg_nonneg) auto
  moreover have "160 * (R1 + R2) - (R1 * R1 + R1 * R2 + R2 * R2) - 1000
      = (160 * R1 - R1 * R1 - 1000) + R2 * (160 - R1 - R2)"
    by (simp add: algebra_simps)
  ultimately show ?thesis
    using a by linarith
next
  case False
  define s where "s = R1 + R2"
  have s: "160 < s" "s < 200"
    using False le lt by (auto simp: s_def)
  have p1: "0 \<le> (100 - R1) * (100 - R2)"
    using le lt by (intro mult_nonneg_nonneg) auto
  have p2: "0 \<le> (s - 160) * (200 - s)"
    using s by (intro mult_nonneg_nonneg) auto
  have "160 * (R1 + R2) - (R1 * R1 + R1 * R2 + R2 * R2) - 1000
      = (100 - R1) * (100 - R2) + (s - 160) * (200 - s) + (21000 - 100 * s)"
    by (simp add: algebra_simps s_def)
  then show ?thesis
    using p1 p2 s by linarith
qed

text \<open>Where the cubic is above the floor 1 it increases up to \<open>R = 100\<close>.\<close>

lemma mos_cubic_mono:
  assumes "0 < R1" "R1 \<le> R2" "R2 < 100" "1 < mos_cubic R1"
  shows "mos_cubic R1 \<le> mos_cubic R2"
proof -
  have "0 < 0.000007 * R1 * (160 * R1 - R1 * R1 - 1000)"
    using assms(4) mos_cubic_above_one [of R1] by linarith
  then have "0 < 160 * R1 - R1 * R1 - 1000"
    using assms(1) by (simp add: zero_less_mult_iff)
  then have "0 \<le> 160 * (R1 + R2) - (R1 * R1 + R1 * R2 + R2 * R2) - 1000"
    using assms by (intro bracket_nonneg) auto
  then have "0 \<le> 0.000007 * (R2 - R1) * (160 * (R1 + R2) - (R1 * R1 + R1 * R2 + R2 * R2) - 1000)"
    using assms(2) by (intro mult_nonneg_nonneg) auto
  then show ?thesis
    using mos_cubic_diff [of R2 R1] by linarith
qed

lemma mos_of_R_mono:
  assumes "R1 \<le> R2"
  shows "mos_of_R R1 \<le> mos_of_R R2"
proof -
  consider "R1 \<le> 0" | "100 \<le> R2" | "0 < R1" "R2 < 100"
    by linarith
  then show ?thesis
  proof cases
    case 1
    then have "mos_of_R R1 = 1"
      by (simp add: mos_of_R_def)
    then show ?thesis
      using mos_of_R_bounds [of R2] by simp
  next
    case 2
    then have "mos_of_R R2 = 4.5"
      by (simp add: mos_of_R_def)
    then show ?thesis
      using mos_of_R_bounds [of R1] by simp
  next
    case 3
    then have "mos_cubic R1 \<le> 1 \<or> mos_cubic R1 \<le> mos_cubic R2"
      using mos_cubic_mono [of R1 R2] assms by linarith
    moreover have "mos_of_R R1 = max 1 (min 4.5 (mos_cubic R1))"
      "mos_of_R R2 = max 1 (min 4.5 (mos_cubic R2))"
      using 3 assms by (simp_all add: mos_of_R_def)
    ultimately show ?thesis
      by (auto simp: max_def min_def)
  qed
qed

text \<open>
  Claim C2, as the code has it. For every fixed codec, with loss percent 0 and burst
  factor 1.0, the MOS formula of \<open>emodel_mos\<close> in exact arithmetic is non-increasing in
  the delay: for \<open>0 \<le> d1 \<le> d2\<close> both calls return and the MOS at \<open>d2\<close> is at most the
  MOS at \<open>d1\<close>.
\<close>

theorem emodel_mos_delay_antimono:
  assumes "0 \<le> d1" and "d1 \<le> d2"
  shows "\<exists>m1 R1 I1 E1 m2 R2 I2 E2.
           emodel_mos d1 0 c 1 = Inr (m1, R1, I1, E1) \<and>
           emodel_mos d2 0 c 1 = Inr (m2, R2, I2, E2) \<and> m2 \<le> m1"
proof -
  obtain Ie Bpl where cp: "codec_params c = (Ie, Bpl)"
    by (cases "codec_params c")
  have "delay_impairment (max 0 d1) \<le> delay_impairment (max 0 d2)"
    using assms by (intro delay_impairment_mono) simp
  then have "mos_of_R (94.2 - delay_impairment (max 0 d2) - Ie)
             \<le> mos_of_R (94.2 - delay_impairment (max 0 d1) - Ie)"
    by (intro mos_of_R_mono) simp
  then show ?thesis
    by (simp add: emodel_mos_burst1 cp Let_def)
qed

theorem emodel_mos_delay_antimono_witness:
  "(0::real) \<le> 100 \<and> (100::real) \<le> 200 \<and>
   (\<exists>m1 R1 I1 E1 m2 R2 I2 E2.
      emodel_mos 100 0 ''g729'' 1 = Inr (m1, R1, I1, E1) \<and>
      emodel_mos 200 0 ''g729'' 1 = Inr (m2, R2, I2, E2) \<and> m2 \<le> m1)"
  using emodel_mos_delay_antimono [of 100 200 "''g729''"] by simp

text \<open>
  The claim as stated, about the value the code returns, fails in double precision:
  \<open>d1 = 23.499999999999996\<close> is the double just below \<open>d2 = 23.5\<close>, and with codec g711
  the code returns 4.4175657300158075 at \<open>d1\<close> and the larger 4.417565730015808 at \<open>d2\<close>
  (the rounding of the cubic moves its last bit).
\<close>

theorem emodel_mos_f64_not_antimono:
  "(0::real) \<le> 6614661952700415 / 281474976710656 \<and>
   (6614661952700415 / 281474976710656 :: real) \<le> 23.5 \<and>
   f64 (6614661952700415 / 281474976710656) = 6614661952700415 / 281474976710656 \<and>
   emodel_mos_f64 (6614661952700415 / 281474976710656) 0 ''g711'' 1 =
     Inr (2486868421947983 / 562949953421312, 6589047729819747 / 70368744177664,
          5080060379673919 / 9007199254740992, 0) \<and>
   emodel_mos_f64 23.5 0 ''g711'' 1 =
     Inr (4973736843895967 / 1125899906842624, 3294523864909873 / 35184372088832,
          79375943432405 / 140737488355328, 0) \<and>
   \<not> (4973736843895967 / 1125899906842624 :: real) \<le> 2486868421947983 / 562949953421312"
proof -
  have "f64 (6614661952700415 / 281474976710656) = 6614661952700415 / 281474976710656"
    by code_simp
  moreover have "emodel_mos_f64 (6614661952700415 / 281474976710656) 0 ''g711'' 1 =
     Inr (2486868421947983 / 562949953421312, 6589047729819747 / 70368744177664,
          5080060379673919 / 9007199254740992, 0)"
    by code_simp
  moreover have "emodel_mos_f64 23.5 0 ''g711'' 1 =
     Inr (4973736843895967 / 1125899906842624, 3294523864909873 / 35184372088832,
          79375943432405 / 140737488355328, 0)"
    by code_simp
  ultimately show ?thesis
    by simp
qed

text \<open>
  Claim C3, as the code has it. For \<open>d = 0\<close>, \<open>p = 0\<close>, codec g711 the estimator returns
  \<open>Id = 0\<close>, \<open>Ie_eff = 0\<close>, \<open>R = 94.2\<close> and the MOS 4.427798584, the value of the cubic
  (\<open>R\<close> is below 100, and the value is within 0.005 of 4.43). For \<open>d = 50\<close>, \<open>p = 5\<close>, codec
  g729 and burst factor 1.0 it returns \<open>Ie_eff = 343.5\<close> exactly, \<open>R = -250.5\<close> and the
  MOS 1.0. In double precision the values are the doubles nearest to these:
  4.4277985840000005, 94.2, 0, 0 and 1.0, -250.5, 1.2, 343.5.
\<close>

theorem emodel_mos_examples:
  "emodel_mos 0 0 ''g711'' 1 = Inr (mos_cubic 94.2, 94.2, 0, 0) \<and>
   mos_cubic 94.2 = 4.427798584 \<and> \<bar>mos_cubic 94.2 - 4.43\<bar> < 0.005 \<and>
   emodel_mos 50 5 ''g729'' 1 = Inr (1, - 250.5, 1.2, 343.5) \<and>
   emodel_mos_f64 0 0 ''g711'' 1 =
     Inr (4985258013243503 / 1125899906842624, f64 94.2, 0, 0) \<and>
   \<bar>4985258013243503 / 1125899906842624 - 4.43\<bar> < (0.005::real) \<and>
   emodel_mos_f64 50 5 ''g729'' 1 = Inr (1, - 250.5, f64 1.2, 343.5)"
proof -
  have "emodel_mos 0 0 ''g711'' 1 = Inr (mos_cubic 94.2, 94.2, 0, 0)"
    by (simp add: emodel_mos_burst1 codec_params_g711 delay_impairment_def hstep_def
        mos_of_R_def mos_cubic_def)
  moreover have "mos_cubic 94.2 = 4.427798584"
    by (simp add: mos_cubic_def)
  moreover have "emodel_mos 50 5 ''g729'' 1 = Inr (1, - 250.5, 1.2, 343.5)"
    by (simp add: emodel_mos_burst1 codec_params_g729 delay_impairment_def hstep_def
        mos_of_R_def)
  moreover have "emodel_mos_f64 0 0 ''g711'' 1 =
     Inr (4985258013243503 / 1125899906842624, f64 94.2, 0, 0)"
    by code_simp
  moreover have "emodel_mos_f64 50 5 ''g729'' 1 = Inr (1, - 250.5, f64 1.2, 343.5)"
    by code_simp
  ultimately show ?thesis
    by simp
qed

text \<open>
  The claim's "\<open>Ie_eff\<close> approximately 343.6" for the second example does not hold to the
  one decimal it is given with: the value is 343.5, at distance 0.1 from 343.6, in exact
  arithmetic and in double precision.
\<close>

theorem emodel_mos_example3_Ie_eff:
  "emodel_mos 50 5 ''g729'' 1 = Inr (1, - 250.5, 1.2, 343.5) \<and>
   emodel_mos_f64 50 5 ''g729'' 1 = Inr (1, - 250.5, f64 1.2, 343.5) \<and>
   \<not> \<bar>(343.5::real) - 343.6\<bar> < 0.05"
proof -
  have "emodel_mos 50 5 ''g729'' 1 = Inr (1, - 250.5, 1.2, 343.5)"
    by (simp add: emodel_mos_burst1 codec_params_g729 delay_impairment_def hstep_def
        mos_of_R_def)
  moreover have "emodel_mos_f64 50 5 ''g729'' 1 = Inr (1, - 250.5, f64 1.2, 343.5)"
    by code_simp
  ultimately show ?thesis
    by simp
qed

section \<open>Properties of the jitter filter\<close>



section \<open>Properties of sending\<close>

lemma and_mask32: "(k::int) AND 0xffffffff = k mod 2 ^ 32"
proof -
  have "(0xffffffff::int) = mask 32"
    by (simp add: mask_eq_exp_minus_1)
  then show ?thesis
    by (simp only: flip: take_bit_eq_mask) (simp add: take_bit_eq_mod)
qed

lemma pack_ok:
  "0 \<le> sq \<Longrightarrow> sq < 2 ^ 32 \<Longrightarrow> 0 \<le> ts \<Longrightarrow> ts < 2 ^ 64 \<Longrightarrow> \<exists>p. pack sq ts MAGIC = Inr p"
  by (simp add: pack_def MAGIC_def)

text \<open>
  Claim C9. On every send attempt (the clock has reached \<open>next_send\<close>; the sequence
  counter and the time stamp fit their fields, so that \<open>pack\<close> does not raise) the loop
  goes on and the sequence counter advances by exactly 1 modulo \<open>2^32\<close>, from
  \<open>2^32 - 1\<close> to 0. When the transport send fails the error is logged and the pending
  map, the window and the sent counter are left as they were; when it succeeds the probe
  is recorded.
\<close>

theorem send_attempt_advances_seq:
  assumes "next_send s \<le> tnow" and "0 \<le> seq s" and "seq s < 2 ^ 32"
    and "0 \<le> sns" and "sns < 2 ^ 64"
  shows "\<exists>s' evs. maybe_send cfg s tnow sns ok = Inr (s', evs) \<and>
           seq s' = (seq s + 1) mod 2 ^ 32 \<and>
           seq s' = (if seq s = 2 ^ 32 - 1 then 0 else seq s + 1) \<and>
           (if ok then evs = [] \<and> sent_times s' = (sent_times s)(seq s \<mapsto> sns) \<and>
                       total_sent s' = total_sent s + 1
            else evs = [SendError] \<and> sent_times s' = sent_times s \<and>
                 window s' = window s \<and> total_sent s' = total_sent s)"
proof -
  obtain p where p: "pack (seq s) sns MAGIC = Inr p"
    using pack_ok assms by blast
  have "(seq s + 1) mod 2 ^ 32 = (if seq s = 2 ^ 32 - 1 then 0 else seq s + 1)"
    using assms(2,3) by (auto simp: zmod_trivial_iff)
  then show ?thesis
    using assms(1) p by (simp add: maybe_send_def and_mask32 Let_def)
qed

theorem send_attempt_advances_seq_witness:
  "next_send (demo_init\<lparr>seq := 4294967295\<rparr>) \<le> 0 \<and>
   0 \<le> seq (demo_init\<lparr>seq := 4294967295\<rparr>) \<and>
   seq (demo_init\<lparr>seq := 4294967295\<rparr>) < 2 ^ 32 \<and>
   (0::int) \<le> 1000000 \<and> (1000000::int) < 2 ^ 64 \<and>
   (\<exists>s' evs. maybe_send demo_cfg (demo_init\<lparr>seq := 4294967295\<rparr>) 0 1000000 False = Inr (s', evs) \<and>
      seq s' = 0 \<and> evs = [SendError] \<and> sent_times s' = sent_times demo_init \<and>
      window s' = [] \<and> total_sent s' = 0)"
  using send_attempt_advances_seq [of "demo_init\<lparr>seq := 4294967295\<rparr>" 0 1000000 demo_cfg False]
  by (simp add: demo_init_def)

section \<open>Properties of receiving\<close>

lemma handle_recv_Datagram:
  assumes u: "unpack (take PKT_SIZE data) = (r_seq, s_ns, magic)"
  shows "handle_recv cfg s (Datagram data recv_ns t ts) =
     (if length data < PKT_SIZE then Inr (False, s, [])
      else if magic \<noteq> MAGIC \<or> r_seq \<in> received s then Inr (True, s, [])
      else case sent_times s r_seq of
             None \<Rightarrow> Inr (False, s\<lparr>received := insert r_seq (received s)\<rparr>, [])
           | Some sent_ns \<Rightarrow>
               (case accept_sample cfg (s\<lparr>received := insert r_seq (received s)\<rparr>)
                       sent_ns s_ns recv_ns t of
                  Inl e \<Rightarrow> Inl e
                | Inr (s2, smp) \<Rightarrow>
                    Inr (False, s2, if csv cfg then [CsvRow (csv_row ts r_seq smp)] else [])))"
  by (simp add: handle_recv_def u Let_def)

lemma unpack_echo:
  "unpack (take PKT_SIZE (echo 0 1000000)) = (0, 1000000, MAGIC)"
  "length (echo 0 1000000) = 16"
  by (simp_all add: echo_def pack_def MAGIC_def be_bytes_def unpack_def be_int_def PKT_SIZE_def
      upt_rec)

text \<open>
  Claim C8. A datagram that is shorter than the 16 bytes of a probe, or whose magic field
  is not \<open>MAGIC\<close>, is rejected silently: \<open>handle_recv\<close> returns (no exception), the client
  state is the one before, and nothing is written.
\<close>

theorem malformed_datagram_dropped:
  assumes "length data < PKT_SIZE \<or> snd (snd (unpack (take PKT_SIZE data))) \<noteq> MAGIC"
  shows "\<exists>c. handle_recv cfg s (Datagram data recv_ns t ts) = Inr (c, s, [])"
  using assms by (auto simp: handle_recv_def split: prod.splits)

theorem malformed_datagram_dropped_witness:
  "length [1, 2, 3 :: byte] < PKT_SIZE \<and>
   (\<exists>c. handle_recv demo_cfg demo_state1 (Datagram [1, 2, 3] 5000000 0.005 ''ts'')
           = Inr (c, demo_state1, [])) \<and>
   snd (snd (unpack (take PKT_SIZE (be_bytes 4 0 @ be_bytes 8 1000000 @ be_bytes 4 3735928559))))
     \<noteq> MAGIC \<and>
   (\<exists>c. handle_recv demo_cfg demo_state1
           (Datagram (be_bytes 4 0 @ be_bytes 8 1000000 @ be_bytes 4 3735928559) 5000000 0.005 ''ts'')
           = Inr (c, demo_state1, []))"
proof -
  have short: "length [1, 2, 3 :: byte] < PKT_SIZE"
    by (simp add: PKT_SIZE_def)
  have magic: "snd (snd (unpack (take PKT_SIZE
      (be_bytes 4 0 @ be_bytes 8 1000000 @ be_bytes 4 3735928559)))) \<noteq> MAGIC"
    by (simp add: MAGIC_def be_bytes_def unpack_def be_int_def PKT_SIZE_def upt_rec)
  show ?thesis
    using short magic
      malformed_datagram_dropped [of "[1, 2, 3]" demo_cfg demo_state1 5000000 "0.005" "''ts''"]
      malformed_datagram_dropped [of "be_bytes 4 0 @ be_bytes 8 1000000 @ be_bytes 4 3735928559"
        demo_cfg demo_state1 5000000 "0.005" "''ts''"]
    by blast
qed

text \<open>
  Claim C7. In every client state (so in every reachable one), a well-formed datagram
  whose sequence number is already in the received set is dropped: the whole state, with
  the received counter, the RTT and one-way sample lists and the jitter state, is
  unchanged and nothing is written. Lemma \<open>reachable_inv\<close> below adds that the received
  counter never exceeds the number of distinct received sequence numbers.
\<close>

theorem duplicate_datagram_dropped:
  assumes "PKT_SIZE \<le> length data"
    and "unpack (take PKT_SIZE data) = (r_seq, s_ns, MAGIC)"
    and "r_seq \<in> received s"
  shows "handle_recv cfg s (Datagram data recv_ns t ts) = Inr (True, s, [])"
  using assms by (simp add: handle_recv_def)

theorem duplicate_datagram_dropped_witness:
  "PKT_SIZE \<le> length (echo 0 1000000) \<and>
   unpack (take PKT_SIZE (echo 0 1000000)) = (0, 1000000, MAGIC) \<and>
   0 \<in> received demo_state1 \<and>
   handle_recv demo_cfg demo_state1 (Datagram (echo 0 1000000) 5000000 0.005 ''ts'')
     = Inr (True, demo_state1, [])"
proof -
  have len: "PKT_SIZE \<le> length (echo 0 1000000)"
    by (simp add: unpack_echo PKT_SIZE_def)
  have rcvd: "0 \<in> received demo_state1"
    by (simp add: demo_state1_def)
  show ?thesis
    using len rcvd unpack_echo(1)
      duplicate_datagram_dropped [OF len unpack_echo(1) rcvd, of demo_cfg 5000000 "0.005" "''ts''"]
    by simp
qed

section \<open>The invariant holds in every reachable state\<close>

lemma inv_init: "init_client cfg t0 t1 t2 = Inr s \<Longrightarrow> client_inv s"
  by (auto simp: init_client_def client_inv_def split: if_splits)

lemma card_insert_le_Suc: "finite A \<Longrightarrow> card (insert x A) \<le> Suc (card A)"
  by (simp add: card_insert_if)

lemma inv_maybe_send:
  assumes "client_inv s" and "maybe_send cfg s tnow sns ok = Inr (s', evs)"
  shows "client_inv s'"
proof (cases "next_send s \<le> tnow")
  case False
  then show ?thesis
    using assms by (simp add: maybe_send_def)
next
  case True
  have fin: "finite (dom (sent_times s))"
    using assms(1) by (simp add: client_inv_def)
  have rng: "0 \<le> (seq s + 1) mod 2 ^ 32" "(seq s + 1) mod 2 ^ 32 < (2 ^ 32 :: int)"
    by simp_all
  show ?thesis
  proof (cases ok)
    case False
    then show ?thesis
      using assms True rng
      by (auto simp: maybe_send_def client_inv_def and_mask32 Let_def split: sum.splits)
  next
    case ok: True
    have c1: "card (received s \<inter> dom (sent_times s))
                \<le> card (received s \<inter> insert (seq s) (dom (sent_times s)))"
      using fin by (intro card_mono) auto
    have c2: "card (insert (seq s) (dom (sent_times s))) \<le> Suc (card (dom (sent_times s)))"
      using fin by (rule card_insert_le_Suc)
    show ?thesis
      using assms True ok rng c1 c2
      by (auto simp: maybe_send_def client_inv_def and_mask32 Let_def split: sum.splits)
  qed
qed

text \<open>What an accepted sample changes, and where its loss percent comes from.\<close>

lemma accept_sample_fields:
  assumes "accept_sample cfg s sent_ns s_ns recv_ns t = Inr (s', smp)"
  shows "sent_times s' = sent_times s \<and> received s' = received s \<and> window s' = window s \<and>
         total_sent s' = total_sent s \<and> total_recv s' = total_recv s + 1 \<and> seq s' = seq s \<and>
         smp_loss_pct smp = window_loss (window s) (received s)"
  using assms
  by (auto simp: accept_sample_def Let_def split: if_splits sum.splits prod.splits)

lemma inv_received_unknown:
  assumes "client_inv s" and "sent_times s r_seq = None"
  shows "client_inv (s\<lparr>received := insert r_seq (received s)\<rparr>)"
proof -
  have "insert r_seq (received s) \<inter> dom (sent_times s) = received s \<inter> dom (sent_times s)"
    using assms(2) by auto
  then show ?thesis
    using assms(1) by (simp add: client_inv_def)
qed

lemma inv_accept_sample:
  assumes inv: "client_inv s" and new: "r_seq \<notin> received s"
    and pending: "sent_times s r_seq = Some sent_ns"
    and acc: "accept_sample cfg (s\<lparr>received := insert r_seq (received s)\<rparr>)
                sent_ns s_ns recv_ns t = Inr (s', smp)"
  shows "client_inv s'"
proof -
  have fin: "finite (dom (sent_times s))"
    using inv by (simp add: client_inv_def)
  note f = accept_sample_fields [OF acc]
  have "insert r_seq (received s) \<inter> dom (sent_times s)
          = insert r_seq (received s \<inter> dom (sent_times s))"
    using pending by auto
  moreover have "r_seq \<notin> received s \<inter> dom (sent_times s)"
    using new by simp
  ultimately have "card (insert r_seq (received s) \<inter> dom (sent_times s))
          = Suc (card (received s \<inter> dom (sent_times s)))"
    using fin by simp
  then show ?thesis
    using inv f by (simp add: client_inv_def)
qed

lemma inv_handle_recv:
  assumes inv: "client_inv s" and h: "handle_recv cfg s r = Inr (c, s', evs)"
  shows "client_inv s'"
proof (cases r)
  case Timeout
  then show ?thesis
    using assms by (simp add: handle_recv_def)
next
  case (Datagram data recv_ns t ts)
  obtain r_seq s_ns magic where u: "unpack (take PKT_SIZE data) = (r_seq, s_ns, magic)"
    by (cases "unpack (take PKT_SIZE data)")
  note h' = h [unfolded Datagram handle_recv_Datagram [OF u]]
  show ?thesis
  proof (cases "length data < PKT_SIZE \<or> magic \<noteq> MAGIC \<or> r_seq \<in> received s")
    case True
    then have "s' = s"
      using h' by (auto split: if_splits)
    then show ?thesis
      using inv by simp
  next
    case False
    show ?thesis
    proof (cases "sent_times s r_seq")
      case None
      then have "s' = s\<lparr>received := insert r_seq (received s)\<rparr>"
        using h' False by simp
      then show ?thesis
        using inv None by (simp add: inv_received_unknown)
    next
      case (Some sent_ns)
      then obtain smp where "accept_sample cfg (s\<lparr>received := insert r_seq (received s)\<rparr>)
                sent_ns s_ns recv_ns t = Inr (s', smp)"
        using h' False by (auto split: sum.splits)
      then show ?thesis
        using inv False Some inv_accept_sample [of s r_seq sent_ns cfg s_ns recv_ns t s' smp]
        by simp
    qed
  qed
qed

lemma report_fields:
  assumes "report cfg s tnow = Inr (s', evs)"
  shows "s' = s \<or> s' = s\<lparr>next_report := next_report s + report_every cfg\<rparr>"
  using assms
  by (auto simp: report_def Let_def split: if_splits sum.splits prod.splits)

lemma inv_report:
  assumes "client_inv s" and "report cfg s tnow = Inr (s', evs)"
  shows "client_inv s'"
  using assms(1) report_fields [OF assms(2)] by (auto simp: client_inv_def)

lemma loop_iter_Next:
  assumes it: "loop_iter cfg s inp = Next s' evs"
  obtains s1 ev1 c s2 ev2 where
    "maybe_send cfg s (now inp) (send_ns inp) (send_ok inp) = Inr (s1, ev1)"
    "handle_recv cfg s1 (recv inp) = Inr (c, s2, ev2)"
    "c \<Longrightarrow> s' = s2"
    "\<not> c \<Longrightarrow> \<exists>ev3. report cfg s2 (now inp) = Inr (s', ev3)"
proof (cases "maybe_send cfg s (now inp) (send_ns inp) (send_ok inp)")
  case (Inl e)
  then show ?thesis
    using it by (simp add: loop_iter_def split: if_splits)
next
  case (Inr p1)
  obtain s1 ev1 where p1: "p1 = (s1, ev1)"
    by (cases p1)
  show ?thesis
  proof (cases "handle_recv cfg s1 (recv inp)")
    case (Inl e)
    then show ?thesis
      using it Inr p1 by (simp add: loop_iter_def split: if_splits)
  next
    case h: (Inr p2)
    obtain c s2 ev2 where p2: "p2 = (c, s2, ev2)"
      by (cases p2)
    show ?thesis
    proof (cases "report cfg s2 (now inp)")
      case (Inl e)
      then have c and "s' = s2"
        using it Inr p1 h p2 by (simp_all add: loop_iter_def split: if_splits)
      then show ?thesis
        using that [of s1 ev1 c s2 ev2] Inr p1 h p2 by simp
    next
      case r: (Inr p3)
      obtain s3 ev3 where p3: "p3 = (s3, ev3)"
        by (cases p3)
      have "if c then s' = s2 else s' = s3"
        using it Inr p1 h p2 r p3 by (simp add: loop_iter_def split: if_splits)
      then show ?thesis
        using that [of s1 ev1 c s2 ev2] Inr p1 h p2 r p3 by (simp split: if_splits)
    qed
  qed
qed

lemma inv_loop_iter:
  assumes inv: "client_inv s" and it: "loop_iter cfg s inp = Next s' evs"
  shows "client_inv s'"
proof -
  from it obtain s1 ev1 c s2 ev2 where
    m: "maybe_send cfg s (now inp) (send_ns inp) (send_ok inp) = Inr (s1, ev1)" and
    h: "handle_recv cfg s1 (recv inp) = Inr (c, s2, ev2)" and
    c1: "c \<Longrightarrow> s' = s2" and
    c2: "\<not> c \<Longrightarrow> \<exists>ev3. report cfg s2 (now inp) = Inr (s', ev3)"
    by (rule loop_iter_Next) blast
  have "client_inv s1"
    using inv m by (rule inv_maybe_send)
  then have i2: "client_inv s2"
    using h by (rule inv_handle_recv)
  show ?thesis
  proof (cases c)
    case True
    then show ?thesis
      using i2 c1 by simp
  next
    case False
    then obtain ev3 where "report cfg s2 (now inp) = Inr (s', ev3)"
      using c2 by blast
    with i2 show ?thesis
      by (rule inv_report)
  qed
qed

lemma reachable_inv: "reachable cfg s \<Longrightarrow> client_inv s"
proof (induction rule: reachable.induct)
  case (init t0 t1 t2 s)
  then show ?case
    by (rule inv_init)
next
  case (step s inp s' evs)
  from step.IH step.hyps(2) show ?case
    by (rule inv_loop_iter)
qed

lemma inv_counters:
  assumes "client_inv s"
  shows "0 \<le> total_recv s \<and> total_recv s \<le> total_sent s"
proof -
  have "card (received s \<inter> dom (sent_times s)) \<le> card (dom (sent_times s))"
    using assms by (intro card_mono) (auto simp: client_inv_def)
  then show ?thesis
    using assms by (simp add: client_inv_def)
qed

lemma cumulative_loss_range:
  assumes "0 \<le> total_recv s" "total_recv s \<le> total_sent s"
  shows "0 \<le> cumulative_loss s \<and> cumulative_loss s \<le> 100"
proof (cases "total_sent s = 0")
  case True
  then show ?thesis
    by (simp add: cumulative_loss_def)
next
  case False
  then have pos: "0 < real_of_int (total_sent s)"
    using assms by simp
  have "real_of_int (100 * (total_sent s - total_recv s)) \<le> 100 * real_of_int (total_sent s)"
    using assms by simp
  moreover have "0 \<le> real_of_int (100 * (total_sent s - total_recv s))"
    using assms by simp
  ultimately show ?thesis
    using pos False by (simp add: cumulative_loss_def divide_le_eq)
qed

text \<open>The summary line carries exactly that cumulative loss percent.\<close>

lemma report_loss_total:
  assumes "report cfg s tnow = Inr (s', evs)" and "Stats st \<in> set evs"
  shows "st_loss_total st = cumulative_loss s \<and> st_sent st = total_sent s \<and>
         st_recv st = total_recv s"
  using assms
  by (auto simp: report_def Let_def split: if_splits sum.splits prod.splits)

lemma emodel_mos_no_loss:
  "\<exists>m R I E. emodel_mos d 0 c b = Inr (m, R, I, E)"
  by (simp add: emodel_mos_def Let_def split: prod.splits)

lemma accept_sample_empty_window:
  assumes "window s = []"
  shows "\<exists>s' smp. accept_sample cfg s sent_ns s_ns recv_ns t = Inr (s', smp) \<and> smp_loss_pct smp = 0"
proof -
  obtain m R I E where
    e: "emodel_mos (avg_recent (pps cfg) (oneway_samples s @ [real_of_int (recv_ns - sent_ns) / 1000000 / 2]))
          0 (codec cfg) (burstR cfg) = Inr (m, R, I, E)"
    using emodel_mos_no_loss by blast
  show ?thesis
    using assms e by (simp add: accept_sample_def window_loss_def Let_def)
qed

section \<open>The short run\<close>

lemmas demo_simps = demo_cfg_def demo_init_def demo_input1_def demo_input2_def demo_input3_def
  demo_state1_def demo_state2_def demo_state3_def loop_iter_def expired_def
  maybe_send_def pack_def MAGIC_def maxlen_def deque_append_def interval_s_def
  handle_recv_def accept_sample_def window_loss_def csv_row_def opt_cell_def report_def
  PKT_SIZE_def unpack_def be_int_def be_bytes_def echo_def upt_rec Let_def
  rfc3550_jitter_update_def py_round_def round_half_even_def

lemma demo_init: "init_client demo_cfg 0 0 0 = Inr demo_init"
  by (simp add: init_client_def demo_cfg_def demo_init_def)

lemma demo_iter1:
  "loop_iter demo_cfg demo_init demo_input1 =
     Next demo_state1
       [CsvRow [Str ''ts1'', IntCell 0, Num 2, Num 1, Num 0, Num 0, Str [], Str [], Str [], Str []]]"
  by (simp add: demo_simps)

lemma demo_iter2:
  "loop_iter demo_cfg demo_state1 demo_input2 =
     Next demo_state2
       [CsvRow [Str ''ts2'', IntCell 1, Num 2, Num 1, Num 0, Num 0, Str [], Str [], Str [], Str []]]"
  by (simp add: demo_simps)

lemma demo_iter3:
  "loop_iter demo_cfg demo_state2 demo_input3 =
     Next demo_state3
       [CsvRow [Str ''ts3'', IntCell 2, Num 2, Num 1, Num 0, Num 0,
                Num 4.427, Num 94.2, Num 0.024, Str []]]"
  by (simp add: demo_simps avg_recent_def last_slice_def emodel_mos_def codec_params_def
      CODEC_PARAMS_def lower_def lower_char_def delay_impairment_def hstep_def mos_of_R_def
      mos_cubic_def)

lemma reachable_demo_init: "reachable demo_cfg demo_init"
  using demo_init by (rule reachable.init)

lemma reachable_demo_state1: "reachable demo_cfg demo_state1"
  using reachable_demo_init demo_iter1 by (rule reachable.step)

lemma reachable_demo_state2: "reachable demo_cfg demo_state2"
  using reachable_demo_state1 demo_iter2 by (rule reachable.step)

text \<open>
  Claim C10. In every reachable client state the received counter is at most the sent
  counter, so the cumulative loss percent of the periodic summary lies between 0 and
  100; and when the sliding window is empty, the handling of an accepted sample does not
  fail and reports the window loss percent 0.
\<close>

theorem counters_and_loss_bounds:
  assumes "reachable cfg s"
  shows "total_recv s \<le> total_sent s \<and> 0 \<le> cumulative_loss s \<and> cumulative_loss s \<le> 100 \<and>
         (window s = [] \<longrightarrow>
            (\<exists>s' smp. accept_sample cfg s sent_ns s_ns recv_ns t = Inr (s', smp) \<and>
                       smp_loss_pct smp = 0))"
  using inv_counters [OF reachable_inv [OF assms]] cumulative_loss_range [of s]
    accept_sample_empty_window [of s cfg sent_ns s_ns recv_ns t]
  by simp

theorem counters_and_loss_bounds_witness:
  "reachable demo_cfg demo_init \<and> window demo_init = [] \<and>
   total_recv demo_init \<le> total_sent demo_init \<and>
   0 \<le> cumulative_loss demo_init \<and> cumulative_loss demo_init \<le> 100 \<and>
   (\<exists>s' smp. accept_sample demo_cfg demo_init 1000000 1000000 3000000 0.003 = Inr (s', smp) \<and>
              smp_loss_pct smp = 0) \<and>
   reachable demo_cfg demo_state2 \<and> total_recv demo_state2 \<le> total_sent demo_state2 \<and>
   cumulative_loss demo_state2 = 0"
proof -
  have w: "window demo_init = []"
    by (simp add: demo_init_def)
  have c: "cumulative_loss demo_state2 = 0"
    by (simp add: cumulative_loss_def demo_state2_def)
  show ?thesis
    using w c reachable_demo_init reachable_demo_state2
      counters_and_loss_bounds [OF reachable_demo_init, of 1000000 1000000 3000000 "0.003"]
      counters_and_loss_bounds [OF reachable_demo_state2, of 0 0 0 0]
    by simp
qed

text \<open>
  Claim C4. When a sample is accepted while the sliding window is not empty, holds \<open>W\<close>
  sequence numbers and exactly \<open>k\<close> of them are members of the received set (which
  already holds the sequence number just received), the window loss percent computed for
  the sample is exactly \<open>100 * (W - k) / W\<close>.
\<close>

theorem window_loss_exact:
  assumes "accept_sample cfg s sent_ns s_ns recv_ns t = Inr (s', smp)"
    and "window s \<noteq> []" and "length (window s) = W"
    and "length (filter (\<lambda>w. w \<in> received s) (window s)) = k"
  shows "smp_loss_pct smp = 100 * (real W - real k) / real W \<and> k \<le> W"
proof -
  have "k \<le> W"
    using assms(3,4) length_filter_le [of "\<lambda>w. w \<in> received s" "window s"] by simp
  moreover have "smp_loss_pct smp = window_loss (window s) (received s)"
    using accept_sample_fields [OF assms(1)] by simp
  ultimately show ?thesis
    using assms(2,3,4) by (simp add: window_loss_def Let_def)
qed

lemma emodel_mos_burst1_Inr: "\<exists>m R I E. emodel_mos d p c 1 = Inr (m, R, I, E)"
  by (simp add: emodel_mos_burst1 Let_def split: prod.splits)

lemma accept_sample_burst1:
  assumes "burstR cfg = 1"
  shows "\<exists>s' smp. accept_sample cfg s sent_ns s_ns recv_ns t = Inr (s', smp)"
proof -
  obtain m R I E where
    "emodel_mos (avg_recent (pps cfg) (oneway_samples s @ [real_of_int (recv_ns - sent_ns) / 1000000 / 2]))
       (window_loss (window s) (received s)) (codec cfg) 1 = Inr (m, R, I, E)"
    using emodel_mos_burst1_Inr by blast
  then show ?thesis
    using assms by (simp add: accept_sample_def Let_def)
qed

theorem window_loss_exact_witness:
  "window (demo_state2\<lparr>window := [0, 1, 2, 3], received := {0, 2}\<rparr>) \<noteq> [] \<and>
   length (window (demo_state2\<lparr>window := [0, 1, 2, 3], received := {0, 2}\<rparr>)) = 4 \<and>
   length (filter (\<lambda>w. w \<in> received (demo_state2\<lparr>window := [0, 1, 2, 3], received := {0, 2}\<rparr>))
             (window (demo_state2\<lparr>window := [0, 1, 2, 3], received := {0, 2}\<rparr>))) = 2 \<and>
   (\<exists>s' smp. accept_sample demo_cfg (demo_state2\<lparr>window := [0, 1, 2, 3], received := {0, 2}\<rparr>)
                41000000 41000000 43000000 0.043 = Inr (s', smp) \<and>
              smp_loss_pct smp = 50)"
proof -
  let ?s = "demo_state2\<lparr>window := [0, 1, 2, 3], received := {0, 2}\<rparr>"
  have w: "window ?s \<noteq> []" "length (window ?s) = 4"
    "length (filter (\<lambda>w. w \<in> received ?s) (window ?s)) = 2"
    by (simp_all add: demo_state2_def)
  have b: "burstR demo_cfg = 1"
    by (simp add: demo_cfg_def)
  obtain s' smp where a: "accept_sample demo_cfg ?s 41000000 41000000 43000000 0.043 = Inr (s', smp)"
    using accept_sample_burst1 [OF b] by blast
  have "smp_loss_pct smp = 50"
    using window_loss_exact [OF a w] by simp
  then show ?thesis
    using w a by blast
qed

text \<open>
  Claim C5 fails on the code. In the third iteration of the short run both conditions
  for reporting hold (the elapsed time 0.043 exceeds the warm-up 0, and three one-way
  samples have been collected), the estimator returns \<open>Ie_eff = 0\<close> for codec g711 with
  no loss, and the row written has the empty string in the \<open>Ie_eff\<close> field: the test
  \<open>round(Ie_eff,3) if Ie_eff else ""\<close> takes the number zero for an absent value.
\<close>

theorem csv_row_blank_Ie_eff:
  "reachable demo_cfg demo_state2 \<and>
   warmup demo_cfg < 0.043 - start demo_state2 \<and>
   loop_iter demo_cfg demo_state2 demo_input3 =
     Next demo_state3
       [CsvRow [Str ''ts3'', IntCell 2, Num 2, Num 1, Num 0, Num 0,
                Num 4.427, Num 94.2, Num 0.024, Str []]] \<and>
   length (oneway_samples demo_state3) = 3 \<and>
   emodel_mos 1 0 ''g711'' 1 = Inr (mos_cubic 94.176, 94.176, 0.024, 0)"
proof -
  have "emodel_mos 1 0 ''g711'' 1 = Inr (mos_cubic 94.176, 94.176, 0.024, 0)"
    by (simp add: emodel_mos_burst1 codec_params_g711 delay_impairment_def hstep_def
        mos_of_R_def mos_cubic_def)
  then show ?thesis
    using reachable_demo_state2 demo_iter3
    by (simp add: demo_cfg_def demo_state2_def demo_state3_def)
qed

end
